theory Spec2Isabelle
  imports Main "HOL-Library.Sublist"
begin

section \<open>The rpm package manager of cachi2: lockfile model and download\<close>

text \<open>
  The development follows \<^verbatim>\<open>cachi2/core/package_managers/rpm.py\<close>: the pydantic models
  \<^verbatim>\<open>Package\<close>, \<^verbatim>\<open>Arch\<close> and \<^verbatim>\<open>RpmsLock\<close>, the methods \<^verbatim>\<open>RpmsLock.from_file\<close> and
  \<^verbatim>\<open>RpmsLock.download\<close>, and the entry point \<^verbatim>\<open>fetch_rpm_source\<close>.
  Library code the module calls (the builtin \<^verbatim>\<open>open\<close>, \<^verbatim>\<open>yaml.safe_load\<close>, the validators of
  pydantic, \<^verbatim>\<open>os.makedirs\<close>, \<^verbatim>\<open>async_download_files\<close>, \<^verbatim>\<open>get_config\<close>) is taken as a
  parameter, collected in the record \<open>env\<close>; \<^verbatim>\<open>os.path.join\<close>, \<^verbatim>\<open>os.path.basename\<close> and
  \<^verbatim>\<open>os.path.dirname\<close> are written out as in \<^verbatim>\<open>posixpath\<close>.
\<close>

subsection \<open>posixpath\<close>

definition startswith_sep :: "string \<Rightarrow> bool" where
  "startswith_sep b = (case b of [] \<Rightarrow> False | c # _ \<Rightarrow> c = CHR ''/'')"

definition endswith_sep :: "string \<Rightarrow> bool" where
  "endswith_sep p = (case rev p of [] \<Rightarrow> False | c # _ \<Rightarrow> c = CHR ''/'')"

text \<open>One round of the loop of \<^verbatim>\<open>posixpath.join\<close>: an absolute component replaces the
  path built so far, an empty path or one ending in the separator takes the component as it
  is, and otherwise the separator goes in between.\<close>

definition join_step :: "string \<Rightarrow> string \<Rightarrow> string" where
  "join_step path b =
     (if startswith_sep b then b
      else if path = [] \<or> endswith_sep path then path @ b
      else path @ ''/'' @ b)"

definition os_path_join :: "string \<Rightarrow> string list \<Rightarrow> string" where
  "os_path_join a p = foldl join_step a p"

text \<open>\<^verbatim>\<open>basename(p) = p[p.rfind('/') + 1:]\<close>: what follows the last separator.\<close>

definition os_path_basename :: "string \<Rightarrow> string" where
  "os_path_basename p = rev (takeWhile (\<lambda>c. c \<noteq> CHR ''/'') (rev p))"

text \<open>\<^verbatim>\<open>dirname\<close>: the head up to and including the last separator, with its trailing
  separators stripped unless it consists of separators only.\<close>

definition os_path_dirname :: "string \<Rightarrow> string" where
  "os_path_dirname p =
     (let head = rev (dropWhile (\<lambda>c. c \<noteq> CHR ''/'') (rev p)) in
      if head \<noteq> [] \<and> filter (\<lambda>c. c \<noteq> CHR ''/'') head \<noteq> []
      then rev (dropWhile (\<lambda>c. c = CHR ''/'') (rev head))
      else head)"

subsection \<open>The lockfile model\<close>

record Package =
  repoid :: string
  url :: string
  checksum :: string
  size_pkg :: int

record Arch =
  arch :: string
  packages :: "Package list"
  sources :: "Package list"

record RpmsLock =
  lockfileVersion :: int
  lockfileVendor :: string
  lockfileType :: string
  arches :: "Arch list"

subsection \<open>Python dictionaries with string keys\<close>

text \<open>A \<^verbatim>\<open>dict\<close> keeps its keys in insertion order; assigning to a key that is present
  replaces the value where the key stands, assigning to a new key appends it.\<close>

type_synonym files_dict = "(string \<times> string) list"

fun dict_setitem :: "files_dict \<Rightarrow> string \<Rightarrow> string \<Rightarrow> files_dict" where
  "dict_setitem [] k v = [(k, v)]"
| "dict_setitem ((k', v') # d) k v =
     (if k' = k then (k, v) # d else (k', v') # dict_setitem d k v)"

subsection \<open>Destination paths\<close>

text \<open>The two \<^verbatim>\<open>os.path.join\<close> calls of \<^verbatim>\<open>RpmsLock.download\<close>.\<close>

definition package_dest :: "string \<Rightarrow> Arch \<Rightarrow> Package \<Rightarrow> string" where
  "package_dest output_dir a pkg =
     os_path_join output_dir
       [''deps'', ''rpm'', arch a, repoid pkg, os_path_basename (url pkg)]"

definition source_dest :: "string \<Rightarrow> Arch \<Rightarrow> Package \<Rightarrow> string" where
  "source_dest output_dir a pkg =
     os_path_join output_dir
       [''deps'', ''rpm'', ''sources'', arch a, repoid pkg, os_path_basename (url pkg)]"

subsection \<open>Exceptions, documents and the collaborators\<close>

text \<open>The exception classes that can leave the module: those of \<^verbatim>\<open>open\<close> and
  \<^verbatim>\<open>os.makedirs\<close>, of \<^verbatim>\<open>yaml.safe_load\<close>, of the call \<^verbatim>\<open>cls(**lockfile)\<close> (a
  \<^verbatim>\<open>TypeError\<close> when the document is no mapping, a pydantic \<^verbatim>\<open>ValidationError\<close> when a
  field is missing or rejected) and of the fetcher. The module defines no exception of its
  own and catches none.\<close>

datatype exn =
    FileNotFoundError string
  | OSError string
  | YAMLError
  | TypeError
  | ValidationError
  | FetchError string

text \<open>What \<^verbatim>\<open>yaml.safe_load\<close> returns; mappings have string keys.\<close>

datatype yaml =
    YNull
  | YBool bool
  | YInt int
  | YStr string
  | YSeq "yaml list"
  | YMap "(string \<times> yaml) list"

text \<open>The field validators of pydantic are library code: one for each annotation the
  three models use (\<^verbatim>\<open>int\<close>, \<^verbatim>\<open>str\<close>, \<^verbatim>\<open>List[...]\<close>, a nested model), each answering
  with the validated value or rejecting the input.\<close>

record pydantic =
  int_validator :: "yaml \<Rightarrow> int option"
  str_validator :: "yaml \<Rightarrow> string option"
  list_validator :: "yaml \<Rightarrow> yaml list option"
  model_validator :: "yaml \<Rightarrow> (string \<times> yaml) list option"

text \<open>The collaborators, over any representation \<open>'fs\<close> of the file system.
  \<^verbatim>\<open>os.makedirs\<close> and the fetcher return the file system they leave behind also when
  they raise.\<close>

record 'fs env =
  open_read :: "string \<Rightarrow> 'fs \<Rightarrow> exn + string"
  yaml_safe_load :: "string \<Rightarrow> exn + yaml"
  validators :: pydantic
  os_makedirs :: "string \<Rightarrow> 'fs \<Rightarrow> exn option \<times> 'fs"
  async_download_files :: "files_dict \<Rightarrow> nat \<Rightarrow> 'fs \<Rightarrow> exn option \<times> 'fs"
  concurrency_limit :: nat

text \<open>The state threaded through the module: the file system and, as a record of what
  was done to the outside in program order, the calls issued to \<^verbatim>\<open>os.makedirs\<close> and to
  the fetcher. A \<open>FetchCall\<close> that returned is followed by \<open>FetchReturn\<close>; one that
  raised is the last event of the run.\<close>

datatype event =
    MakeDirs string
  | FetchCall files_dict nat
  | FetchReturn

record 'fs state =
  fs :: 'fs
  trace :: "event list"

type_synonym ('fs, 'a) prog = "'fs state \<Rightarrow> (exn + 'a) \<times> 'fs state"

definition bind :: "('fs, 'a) prog \<Rightarrow> ('a \<Rightarrow> ('fs, 'b) prog) \<Rightarrow> ('fs, 'b) prog" where
  "bind m f st = (case m st of (Inl e, st') \<Rightarrow> (Inl e, st') | (Inr x, st') \<Rightarrow> f x st')"

definition makedirs :: "'fs env \<Rightarrow> string \<Rightarrow> ('fs, unit) prog" where
  "makedirs env d st =
     (let st1 = st\<lparr>trace := trace st @ [MakeDirs d]\<rparr> in
      case os_makedirs env d (fs st1) of
        (Some e, w) \<Rightarrow> (Inl e, st1\<lparr>fs := w\<rparr>)
      | (None, w) \<Rightarrow> (Inr (), st1\<lparr>fs := w\<rparr>))"

text \<open>\<^verbatim>\<open>asyncio.run(async_download_files(files, get_config().concurrency_limit))\<close>: the
  call blocks until the coroutine has finished or raised.\<close>

definition asyncio_run :: "'fs env \<Rightarrow> files_dict \<Rightarrow> ('fs, unit) prog" where
  "asyncio_run env files st =
     (let st1 = st\<lparr>trace := trace st @ [FetchCall files (concurrency_limit env)]\<rparr> in
      case async_download_files env files (concurrency_limit env) (fs st1) of
        (Some e, w) \<Rightarrow> (Inl e, st1\<lparr>fs := w\<rparr>)
      | (None, w) \<Rightarrow> (Inr (), st1\<lparr>fs := w, trace := trace st1 @ [FetchReturn]\<rparr>))"

subsection \<open>RpmsLock.download\<close>

text \<open>The inner loop \<^verbatim>\<open>for pkg in ...: dest = ...; files[pkg.url] = dest;
  os.makedirs(os.path.dirname(dest), exist_ok=True)\<close>, for either destination rule.\<close>

fun build_files ::
  "'fs env \<Rightarrow> (Package \<Rightarrow> string) \<Rightarrow> Package list \<Rightarrow> files_dict \<Rightarrow> ('fs, files_dict) prog" where
  "build_files env dest [] files st = (Inr files, st)"
| "build_files env dest (pkg # pkgs) files st =
     (let files' = dict_setitem files (url pkg) (dest pkg) in
      case makedirs env (os_path_dirname (dest pkg)) st of
        (Inl e, st') \<Rightarrow> (Inl e, st')
      | (Inr _, st') \<Rightarrow> build_files env dest pkgs files' st')"

text \<open>The body of the outer loop: the binary packages of one architecture, then its
  source packages.\<close>

definition download_arch :: "'fs env \<Rightarrow> string \<Rightarrow> Arch \<Rightarrow> ('fs, unit) prog" where
  "download_arch env output_dir a =
     bind (build_files env (package_dest output_dir a) (packages a) []) (\<lambda>files.
     bind (asyncio_run env files) (\<lambda>_.
     bind (build_files env (source_dest output_dir a) (sources a) []) (\<lambda>files.
     asyncio_run env files)))"

fun download_arches :: "'fs env \<Rightarrow> string \<Rightarrow> Arch list \<Rightarrow> ('fs, unit) prog" where
  "download_arches env output_dir [] st = (Inr (), st)"
| "download_arches env output_dir (a # as) st =
     (case download_arch env output_dir a st of
        (Inl e, st') \<Rightarrow> (Inl e, st')
      | (Inr _, st') \<Rightarrow> download_arches env output_dir as st')"

definition download :: "'fs env \<Rightarrow> RpmsLock \<Rightarrow> string \<Rightarrow> ('fs, unit) prog" where
  "download env lock output_dir = download_arches env output_dir (arches lock)"

subsection \<open>RpmsLock.from_file\<close>

fun validate_all :: "('a \<Rightarrow> 'b option) \<Rightarrow> 'a list \<Rightarrow> 'b list option" where
  "validate_all f [] = Some []"
| "validate_all f (x # xs) =
     (case f x of None \<Rightarrow> None
      | Some y \<Rightarrow> (case validate_all f xs of None \<Rightarrow> None | Some ys \<Rightarrow> Some (y # ys)))"

text \<open>A required field: it must be present and its validator must accept the value.\<close>

definition field :: "(string \<times> yaml) list \<Rightarrow> string \<Rightarrow> (yaml \<Rightarrow> 'a option) \<Rightarrow> 'a option" where
  "field kw name v = (case map_of kw name of None \<Rightarrow> None | Some y \<Rightarrow> v y)"

definition validate_Package :: "pydantic \<Rightarrow> yaml \<Rightarrow> Package option" where
  "validate_Package pyd y =
     (case model_validator pyd y of None \<Rightarrow> None
      | Some kw \<Rightarrow>
         (case (field kw ''repoid'' (str_validator pyd), field kw ''url'' (str_validator pyd),
                field kw ''checksum'' (str_validator pyd), field kw ''size'' (int_validator pyd)) of
            (Some r, Some u, Some c, Some s) \<Rightarrow>
              Some \<lparr>repoid = r, url = u, checksum = c, size_pkg = s\<rparr>
          | _ \<Rightarrow> None))"

definition validate_Packages :: "pydantic \<Rightarrow> yaml \<Rightarrow> Package list option" where
  "validate_Packages pyd y =
     (case list_validator pyd y of None \<Rightarrow> None
      | Some ys \<Rightarrow> validate_all (validate_Package pyd) ys)"

definition validate_Arch :: "pydantic \<Rightarrow> yaml \<Rightarrow> Arch option" where
  "validate_Arch pyd y =
     (case model_validator pyd y of None \<Rightarrow> None
      | Some kw \<Rightarrow>
         (case (field kw ''arch'' (str_validator pyd),
                field kw ''packages'' (validate_Packages pyd),
                field kw ''sources'' (validate_Packages pyd)) of
            (Some a, Some ps, Some ss) \<Rightarrow> Some \<lparr>arch = a, packages = ps, sources = ss\<rparr>
          | _ \<Rightarrow> None))"

definition validate_Arches :: "pydantic \<Rightarrow> yaml \<Rightarrow> Arch list option" where
  "validate_Arches pyd y =
     (case list_validator pyd y of None \<Rightarrow> None
      | Some ys \<Rightarrow> validate_all (validate_Arch pyd) ys)"

text \<open>\<^verbatim>\<open>RpmsLock(**kw)\<close>: the four declared fields are required, other keys are ignored.\<close>

definition RpmsLock_init :: "pydantic \<Rightarrow> (string \<times> yaml) list \<Rightarrow> exn + RpmsLock" where
  "RpmsLock_init pyd kw =
     (case (field kw ''lockfileVersion'' (int_validator pyd),
            field kw ''lockfileVendor'' (str_validator pyd),
            field kw ''lockfileType'' (str_validator pyd),
            field kw ''arches'' (validate_Arches pyd)) of
        (Some v, Some vendor, Some t, Some as) \<Rightarrow>
          Inr \<lparr>lockfileVersion = v, lockfileVendor = vendor, lockfileType = t, arches = as\<rparr>
      | _ \<Rightarrow> Inl ValidationError)"

text \<open>\<^verbatim>\<open>cls(**lockfile)\<close> on the loaded document: only a mapping can be unpacked.\<close>

definition parse :: "pydantic \<Rightarrow> yaml \<Rightarrow> exn + RpmsLock" where
  "parse pyd doc = (case doc of YMap kw \<Rightarrow> RpmsLock_init pyd kw | _ \<Rightarrow> Inl TypeError)"

definition from_file :: "'fs env \<Rightarrow> string \<Rightarrow> ('fs, RpmsLock) prog" where
  "from_file env lockfile_path st =
     (case open_read env lockfile_path (fs st) of
        Inl e \<Rightarrow> (Inl e, st)
      | Inr text \<Rightarrow>
         (case yaml_safe_load env text of
            Inl e \<Rightarrow> (Inl e, st)
          | Inr lockfile \<Rightarrow>
             (case parse (validators env) lockfile of
                Inl e \<Rightarrow> (Inl e, st)
              | Inr lock \<Rightarrow> (Inr lock, st))))"

subsection \<open>fetch_rpm_source\<close>

record Component =
  name :: string
  version :: string
  purl :: string

text \<open>Of \<^verbatim>\<open>RequestOutput\<close> the model keeps the component list handed to
  \<^verbatim>\<open>RequestOutput.from_obj_list\<close>; of the request, the field the function reads.\<close>

record RequestOutput =
  components :: "Component list"

record Request =
  output_dir :: string

definition fetch_rpm_source :: "'fs env \<Rightarrow> 'r Request_scheme \<Rightarrow> ('fs, RequestOutput) prog" where
  "fetch_rpm_source env request =
     (let components = [] in
      bind (from_file env ''rpms.lock.yaml'') (\<lambda>rpmslock.
      bind (download env rpmslock (output_dir request)) (\<lambda>_ st.
      (Inr \<lparr>components = components\<rparr>, st))))"

subsection \<open>Notions used to state the properties\<close>

text \<open>The dictionary the inner loop has built when it ends without an exception.\<close>

definition planned_files :: "(Package \<Rightarrow> string) \<Rightarrow> Package list \<Rightarrow> files_dict" where
  "planned_files dest pkgs =
     foldl (\<lambda>files pkg. dict_setitem files (url pkg) (dest pkg)) [] pkgs"

text \<open>The dictionaries a run of \<open>download\<close> hands to the fetcher when nothing raises:
  for each architecture in turn, the one of its packages, then the one of its sources.\<close>

definition planned_calls :: "string \<Rightarrow> Arch list \<Rightarrow> files_dict list" where
  "planned_calls out as =
     concat (map (\<lambda>a. [planned_files (package_dest out a) (packages a),
                        planned_files (source_dest out a) (sources a)]) as)"

text \<open>A path component that is not empty and holds no separator.\<close>

definition clean :: "string \<Rightarrow> bool" where
  "clean s = (s \<noteq> [] \<and> CHR ''/'' \<notin> set s)"

text \<open>The dictionaries of the fetcher calls of a trace, in order.\<close>

fun fetch_calls :: "event list \<Rightarrow> files_dict list" where
  "fetch_calls [] = []"
| "fetch_calls (FetchCall files n # es) = files # fetch_calls es"
| "fetch_calls (MakeDirs d # es) = fetch_calls es"
| "fetch_calls (FetchReturn # es) = fetch_calls es"

text \<open>Reading a trace from the left with the flag "a fetcher call is in flight":
  \<open>None\<close> when an event happens that the flag forbids (a call or a directory creation
  while a call is in flight, a return with no call in flight), else the flag at the end.\<close>

fun scan :: "bool \<Rightarrow> event list \<Rightarrow> bool option" where
  "scan b [] = Some b"
| "scan b (MakeDirs d # es) = (if b then None else scan False es)"
| "scan b (FetchCall files n # es) = (if b then None else scan True es)"
| "scan b (FetchReturn # es) = (if b then scan False es else None)"

definition sequential :: "event list \<Rightarrow> bool" where
  "sequential es = (scan False es \<noteq> None)"

text \<open>The number of fetcher calls in flight after a trace.\<close>

fun in_flight :: "event list \<Rightarrow> int" where
  "in_flight [] = 0"
| "in_flight (FetchCall files n # es) = in_flight es + 1"
| "in_flight (FetchReturn # es) = in_flight es - 1"
| "in_flight (MakeDirs d # es) = in_flight es"

text \<open>The directories a trace asks \<^verbatim>\<open>os.makedirs\<close> for, in order, and the ones a run
  of \<open>download\<close> asks for when nothing raises.\<close>

fun made_dirs :: "event list \<Rightarrow> string list" where
  "made_dirs [] = []"
| "made_dirs (MakeDirs d # es) = d # made_dirs es"
| "made_dirs (FetchCall files n # es) = made_dirs es"
| "made_dirs (FetchReturn # es) = made_dirs es"

definition planned_dirs :: "string \<Rightarrow> Arch list \<Rightarrow> string list" where
  "planned_dirs out as =
     concat (map (\<lambda>a. map (\<lambda>pkg. os_path_dirname (package_dest out a pkg)) (packages a) @
                        map (\<lambda>pkg. os_path_dirname (source_dest out a pkg)) (sources a)) as)"

subsection \<open>A small environment to run the model in\<close>

text \<open>A disk is a list of files with their contents; directories are not represented,
  \<^verbatim>\<open>os.makedirs\<close> always succeeds, and the fetcher writes, for every entry of its
  dictionary, what the remote side serves for the URL.\<close>

type_synonym disk = "(string \<times> string) list"

definition disk_open :: "string \<Rightarrow> disk \<Rightarrow> exn + string" where
  "disk_open p w = (case map_of w p of None \<Rightarrow> Inl (FileNotFoundError p) | Some c \<Rightarrow> Inr c)"

definition disk_fetch :: "(string \<Rightarrow> string) \<Rightarrow> files_dict \<Rightarrow> nat \<Rightarrow> disk \<Rightarrow> exn option \<times> disk" where
  "disk_fetch remote files n w = (None, map (\<lambda>(u, d). (d, remote u)) files @ w)"

text \<open>Validators that accept a value of exactly the annotated type.\<close>

definition exact :: pydantic where
  "exact = \<lparr>int_validator = (\<lambda>y. case y of YInt i \<Rightarrow> Some i | _ \<Rightarrow> None),
            str_validator = (\<lambda>y. case y of YStr s \<Rightarrow> Some s | _ \<Rightarrow> None),
            list_validator = (\<lambda>y. case y of YSeq ys \<Rightarrow> Some ys | _ \<Rightarrow> None),
            model_validator = (\<lambda>y. case y of YMap kw \<Rightarrow> Some kw | _ \<Rightarrow> None)\<rparr>"

text \<open>The environment in which every file loads as the document \<open>doc\<close> and every URL
  serves the bytes \<open>body\<close>, with the concurrency limit of the default configuration.\<close>

definition disk_env :: "yaml \<Rightarrow> string \<Rightarrow> disk env" where
  "disk_env doc body =
     \<lparr>open_read = disk_open, yaml_safe_load = (\<lambda>text. Inr doc), validators = exact,
      os_makedirs = (\<lambda>d w. (None, w)), async_download_files = disk_fetch (\<lambda>u. body),
      concurrency_limit = 5\<rparr>"

definition fresh :: "'fs \<Rightarrow> 'fs state" where
  "fresh w = \<lparr>fs = w, trace = []\<rparr>"

text \<open>The lockfile of the unit tests, with the two keys the models of this module
  require (\<^verbatim>\<open>lockfileType\<close>, \<^verbatim>\<open>sources\<close>), and the same data as parsed objects.\<close>

definition vim_url :: string where
  "vim_url = ''https://example.com/x86_64/Packages/v/vim-enhanced-9.1.158-1.fc38.x86_64.rpm''"

definition vim_src_url :: string where
  "vim_src_url = ''https://example.com/source/tree/Packages/v/vim-9.1.158-1.fc38.src.rpm''"

definition vim_pkg :: Package where
  "vim_pkg = \<lparr>repoid = ''updates'', url = vim_url,
     checksum = ''sha256:21bb2a09852e75a693d277435c162e1a910835c53c3cee7636dd552d450ed0f1'',
     size_pkg = 1976132\<rparr>"

definition vim_src :: Package where
  "vim_src = \<lparr>repoid = ''updates-source'', url = vim_src_url,
     checksum = ''sha256:94803b5e1ff601bf4009f223cb53037cdfa2fe559d90251bbe85a3a5bc6d2aab'',
     size_pkg = 14735448\<rparr>"

definition vim_arch :: Arch where
  "vim_arch = \<lparr>arch = ''x86_64'', packages = [vim_pkg], sources = [vim_src]\<rparr>"

definition vim_lock :: RpmsLock where
  "vim_lock = \<lparr>lockfileVersion = 1, lockfileVendor = ''redhat'', lockfileType = ''rpm'',
     arches = [vim_arch]\<rparr>"

definition yaml_of_Package :: "Package \<Rightarrow> yaml" where
  "yaml_of_Package p =
     YMap [(''url'', YStr (url p)), (''checksum'', YStr (checksum p)),
           (''size'', YInt (size_pkg p)), (''repoid'', YStr (repoid p))]"

definition vim_doc :: yaml where
  "vim_doc =
     YMap [(''lockfileVersion'', YInt 1), (''lockfileVendor'', YStr ''redhat''),
           (''lockfileType'', YStr ''rpm''),
           (''arches'', YSeq [YMap [(''arch'', YStr ''x86_64''),
              (''packages'', YSeq [yaml_of_Package vim_pkg]),
              (''sources'', YSeq [yaml_of_Package vim_src])]])]"


text \<open>The common prefix of all destination paths.\<close>

definition deps_rpm :: "string \<Rightarrow> string" where
  "deps_rpm out = join_step (join_step out ''deps'') ''rpm''"

text \<open>Two packages of one repository whose URLs end in the same file name, and an
  architecture group named \<^verbatim>\<open>sources\<close> whose binary package lies in a repository with a
  separator in its id.\<close>

definition dup_a :: Package where
  "dup_a = \<lparr>repoid = ''r'', url = ''https://a.example/x.rpm'', checksum = ''sha256:aa'', size_pkg = 1\<rparr>"

definition dup_b :: Package where
  "dup_b = \<lparr>repoid = ''r'', url = ''https://b.example/x.rpm'', checksum = ''sha256:bb'', size_pkg = 2\<rparr>"

definition dup_arch :: Arch where
  "dup_arch = \<lparr>arch = ''x86_64'', packages = [dup_a, dup_b], sources = []\<rparr>"

definition mix_bin :: Package where
  "mix_bin = \<lparr>repoid = ''sources/r'', url = ''https://a.example/x.rpm'', checksum = ''sha256:aa'', size_pkg = 1\<rparr>"

definition mix_src :: Package where
  "mix_src = \<lparr>repoid = ''r'', url = ''https://a.example/src/x.rpm'', checksum = ''sha256:cc'', size_pkg = 3\<rparr>"

definition mix_arch :: Arch where
  "mix_arch = \<lparr>arch = ''sources'', packages = [mix_bin], sources = [mix_src]\<rparr>"

subsection \<open>The shape of a lockfile document\<close>












text \<open>A working directory that holds a lockfile, and an \<^verbatim>\<open>open\<close> that knows no other
  file.\<close>

definition lock_disk :: disk where
  "lock_disk = [(''rpms.lock.yaml'', ''lockfileVersion: 1'')]"


section \<open>Auxiliary facts\<close>

subsection \<open>Dictionaries\<close>




lemma build_files_result:
  "build_files env dest pkgs files st = (Inr files', st') \<Longrightarrow>
   files' = foldl (\<lambda>files pkg. dict_setitem files (url pkg) (dest pkg)) files pkgs"
  by (induction pkgs arbitrary: files st) (auto simp: Let_def split: prod.splits sum.splits)




subsection \<open>Paths\<close>

lemma basename_no_sep: "CHR ''/'' \<notin> set (os_path_basename p)"
  unfolding os_path_basename_def by (auto dest: set_takeWhileD)

lemma join_step_rel:
  "\<not> startswith_sep b \<Longrightarrow> path \<noteq> [] \<Longrightarrow> \<not> endswith_sep path \<Longrightarrow>
   join_step path b = path @ CHR ''/'' # b"
  by (simp add: join_step_def)

lemma not_startswith_sep: "CHR ''/'' \<notin> set b \<Longrightarrow> \<not> startswith_sep b"
  by (cases b) (auto simp: startswith_sep_def)

lemma endswith_sep_append:
  "b \<noteq> [] \<Longrightarrow> endswith_sep (p @ b) = endswith_sep b"
  by (cases b rule: rev_cases) (auto simp: endswith_sep_def)

lemma clean_not_endswith: "clean b \<Longrightarrow> \<not> endswith_sep b"
  by (cases b rule: rev_cases) (auto simp: endswith_sep_def clean_def)

lemma join_step_clean:
  assumes "clean b" "path \<noteq> []" "\<not> endswith_sep path"
  shows "join_step path b = path @ CHR ''/'' # b"
    and "join_step path b \<noteq> []" and "\<not> endswith_sep (join_step path b)"
proof -
  from assms(1) have nb: "\<not> startswith_sep b" by (simp add: clean_def not_startswith_sep)
  show eq: "join_step path b = path @ CHR ''/'' # b" by (rule join_step_rel [OF nb assms(2,3)])
  show "join_step path b \<noteq> []" by (simp add: eq)
  from assms(1) have "b \<noteq> []" by (simp add: clean_def)
  then have "endswith_sep (path @ CHR ''/'' # b) = endswith_sep b"
    using endswith_sep_append [of b "path @ ''/''"] by simp
  then show "\<not> endswith_sep (join_step path b)" using clean_not_endswith [OF assms(1)] by (simp add: eq)
qed

lemma clean_lits: "clean ''deps''" "clean ''rpm''" "clean ''sources''"
  by (simp_all add: clean_def)

lemma deps_rpm_ok: "deps_rpm out \<noteq> []" "\<not> endswith_sep (deps_rpm out)"
  by (auto simp: deps_rpm_def join_step_def startswith_sep_def endswith_sep_def)

lemma join_chain:
  assumes P: "P \<noteq> []" "\<not> endswith_sep P" and "clean A" "clean R" "CHR ''/'' \<notin> set B"
  shows "join_step (join_step (join_step P A) R) B = P @ CHR ''/'' # A @ CHR ''/'' # R @ CHR ''/'' # B"
proof -
  let ?X1 = "P @ CHR ''/'' # A"
  have s1: "join_step P A = ?X1" using join_step_clean(1) [OF assms(3) P] .
  have x1: "?X1 \<noteq> []" "\<not> endswith_sep ?X1"
    using join_step_clean(2,3) [OF assms(3) P] unfolding s1 by auto
  let ?X2 = "?X1 @ CHR ''/'' # R"
  have s2: "join_step ?X1 R = ?X2" using join_step_clean(1) [OF assms(4) x1] .
  have x2: "?X2 \<noteq> []" "\<not> endswith_sep ?X2"
    using join_step_clean(2,3) [OF assms(4) x1] unfolding s2 by auto
  have s3: "join_step ?X2 B = ?X2 @ CHR ''/'' # B"
    by (rule join_step_rel [OF not_startswith_sep [OF assms(5)] x2])
  show ?thesis unfolding s1 s2 s3 by simp
qed

lemma package_dest_eq:
  assumes "clean (arch a)" "clean (repoid p)"
  shows "package_dest out a p =
         deps_rpm out @ CHR ''/'' # arch a @ CHR ''/'' # repoid p @ CHR ''/'' # os_path_basename (url p)"
proof -
  have "package_dest out a p =
        join_step (join_step (join_step (deps_rpm out) (arch a)) (repoid p)) (os_path_basename (url p))"
    by (simp add: package_dest_def os_path_join_def deps_rpm_def)
  then show ?thesis
    using join_chain [OF deps_rpm_ok assms basename_no_sep] by simp
qed

lemma source_dest_eq:
  assumes "clean (arch a)" "clean (repoid p)"
  shows "source_dest out a p =
         (deps_rpm out @ ''/sources'') @ CHR ''/'' # arch a @ CHR ''/'' # repoid p @ CHR ''/'' # os_path_basename (url p)"
proof -
  let ?P = "deps_rpm out @ ''/sources''"
  have s0: "join_step (deps_rpm out) ''sources'' = ?P"
    using join_step_clean(1) [OF clean_lits(3) deps_rpm_ok(1) [of out] deps_rpm_ok(2) [of out]] by simp
  have p: "?P \<noteq> []" "\<not> endswith_sep ?P"
    using join_step_clean(2,3) [OF clean_lits(3) deps_rpm_ok(1) [of out] deps_rpm_ok(2) [of out]]
    unfolding s0 by auto
  have "source_dest out a p =
        join_step (join_step (join_step ?P (arch a)) (repoid p)) (os_path_basename (url p))"
    unfolding s0 [symmetric] by (simp add: source_dest_def os_path_join_def deps_rpm_def)
  then show ?thesis
    using join_chain [OF p assms basename_no_sep] by simp
qed

lemma seg_cancel:
  "CHR ''/'' \<notin> set x \<Longrightarrow> CHR ''/'' \<notin> set y \<Longrightarrow>
   (x @ CHR ''/'' # xs = y @ CHR ''/'' # ys) = (x = y \<and> xs = ys)"
proof (induction x arbitrary: y)
  case Nil then show ?case by (cases y) auto
next
  case (Cons c x) then show ?case by (cases y) auto
qed

subsection \<open>Traces\<close>

lemma fetch_calls_append: "fetch_calls (xs @ ys) = fetch_calls xs @ fetch_calls ys"
  by (induction xs rule: fetch_calls.induct) auto

lemma scan_append:
  "scan b (xs @ ys) = (case scan b xs of None \<Rightarrow> None | Some b' \<Rightarrow> scan b' ys)"
  by (induction b xs rule: scan.induct) auto

lemma makedirs_trace:
  "makedirs env d st = (r, st') \<Longrightarrow> trace st' = trace st @ [MakeDirs d]"
  by (auto simp: makedirs_def Let_def split: prod.splits option.splits)

lemma build_files_trace:
  "build_files env dest pkgs files st = (r, st') \<Longrightarrow>
   \<exists>evs. trace st' = trace st @ evs \<and> scan False evs = Some False \<and> fetch_calls evs = []"
proof (induction pkgs arbitrary: files st)
  case Nil then show ?case by auto
next
  case (Cons pkg pkgs)
  obtain r1 st1 where m: "makedirs env (os_path_dirname (dest pkg)) st = (r1, st1)"
    by (cases "makedirs env (os_path_dirname (dest pkg)) st")
  note t1 = makedirs_trace [OF m]
  show ?case
  proof (cases r1)
    case (Inl e)
    with Cons.prems m have "st' = st1" by (simp add: Let_def)
    with t1 show ?thesis by simp
  next
    case (Inr u)
    with Cons.prems m have
      "build_files env dest pkgs (dict_setitem files (url pkg) (dest pkg)) st1 = (r, st')"
      by (simp add: Let_def)
    from Cons.IH [OF this] obtain evs where
      "trace st' = trace st1 @ evs" "scan False evs = Some False" "fetch_calls evs = []" by blast
    with t1 show ?thesis by (intro exI [of _ "MakeDirs (os_path_dirname (dest pkg)) # evs"]) simp
  qed
qed

lemma build_files_planned:
  "build_files env dest pkgs [] st = (Inr files, st') \<Longrightarrow> files = planned_files dest pkgs"
  unfolding planned_files_def by (rule build_files_result)

lemma asyncio_run_trace:
  "asyncio_run env files st = (r, st') \<Longrightarrow>
   \<exists>evs. trace st' = trace st @ evs \<and> fetch_calls evs = [files] \<and>
     scan False evs = Some (case r of Inl _ \<Rightarrow> True | Inr _ \<Rightarrow> False)"
  by (auto simp: asyncio_run_def Let_def split: prod.splits option.splits)

lemma bind_cases:
  assumes "bind m f st = (r, st')"
  obtains (raised) e where "m st = (Inl e, st')" "r = Inl e"
  | (returned) x st1 where "m st = (Inr x, st1)" "f x st1 = (r, st')"
  using assms by (auto simp: bind_def split: prod.splits sum.splits)

lemma download_arch_trace:
  assumes "download_arch env out a st = (r, st')"
  shows "\<exists>evs. trace st' = trace st @ evs \<and> scan False evs \<noteq> None \<and>
           prefix (fetch_calls evs) (planned_calls out [a]) \<and>
           (\<forall>x. r = Inr x \<longrightarrow> scan False evs = Some False \<and> fetch_calls evs = planned_calls out [a])"
proof -
  let ?B = "planned_files (package_dest out a) (packages a)"
  let ?S = "planned_files (source_dest out a) (sources a)"
  have pc: "planned_calls out [a] = [?B, ?S]" by (simp add: planned_calls_def)
  from assms [unfolded download_arch_def] show ?thesis
  proof (cases rule: bind_cases)
    case (raised e)
    from build_files_trace [OF raised(1)] raised(2) show ?thesis by (auto simp: pc)
  next
    case (returned files st1)
    note f = build_files_planned [OF returned(1)]
    from build_files_trace [OF returned(1)] obtain ev1 where
      e1: "trace st1 = trace st @ ev1" "scan False ev1 = Some False" "fetch_calls ev1 = []" by blast
    from returned(2) show ?thesis
    proof (cases rule: bind_cases)
      case (raised e)
      from asyncio_run_trace [OF raised(1)] obtain ev2 where
        e2: "trace st' = trace st1 @ ev2" "fetch_calls ev2 = [files]" "scan False ev2 = Some True"
        by auto
      show ?thesis
        by (intro exI [of _ "ev1 @ ev2"]) (simp add: e1 e2 raised(2) scan_append fetch_calls_append pc f)
    next
      case (returned u st2)
      from asyncio_run_trace [OF returned(1)] obtain ev2 where
        e2: "trace st2 = trace st1 @ ev2" "fetch_calls ev2 = [files]" "scan False ev2 = Some False"
        by auto
      from returned(2) show ?thesis
      proof (cases rule: bind_cases)
        case (raised e)
        from build_files_trace [OF raised(1)] obtain ev3 where
          e3: "trace st' = trace st2 @ ev3" "scan False ev3 = Some False" "fetch_calls ev3 = []" by blast
        show ?thesis
          by (intro exI [of _ "ev1 @ ev2 @ ev3"])
             (simp add: e1 e2 e3 raised(2) scan_append fetch_calls_append pc f)
      next
        case (returned files2 st3)
        note f2 = build_files_planned [OF returned(1)]
        from build_files_trace [OF returned(1)] obtain ev3 where
          e3: "trace st3 = trace st2 @ ev3" "scan False ev3 = Some False" "fetch_calls ev3 = []" by blast
        from asyncio_run_trace [OF returned(2)] obtain ev4 where
          e4: "trace st' = trace st3 @ ev4" "fetch_calls ev4 = [files2]"
            "scan False ev4 = Some (case r of Inl _ \<Rightarrow> True | Inr _ \<Rightarrow> False)"
          by auto
        show ?thesis
          by (intro exI [of _ "ev1 @ ev2 @ ev3 @ ev4"])
             (auto simp: e1 e2 e3 e4 scan_append fetch_calls_append pc f f2 split: sum.splits)
      qed
    qed
  qed
qed

lemma planned_calls_Cons:
  "planned_calls out (a # as) = planned_calls out [a] @ planned_calls out as"
  by (simp add: planned_calls_def)

lemma download_arches_trace:
  "download_arches env out as st = (r, st') \<Longrightarrow>
   \<exists>evs. trace st' = trace st @ evs \<and> scan False evs \<noteq> None \<and>
      prefix (fetch_calls evs) (planned_calls out as) \<and>
      (\<forall>x. r = Inr x \<longrightarrow> scan False evs = Some False \<and> fetch_calls evs = planned_calls out as)"
proof (induction as arbitrary: st)
  case Nil
  then show ?case by (auto simp: planned_calls_def)
next
  case (Cons a as)
  obtain r1 st1 where d: "download_arch env out a st = (r1, st1)"
    by (cases "download_arch env out a st")
  from download_arch_trace [OF d] obtain ev1 where
    e1: "trace st1 = trace st @ ev1" "scan False ev1 \<noteq> None"
      "prefix (fetch_calls ev1) (planned_calls out [a])"
      "\<forall>x. r1 = Inr x \<longrightarrow> scan False ev1 = Some False \<and> fetch_calls ev1 = planned_calls out [a]"
    by blast
  show ?case
  proof (cases r1)
    case (Inl e)
    with Cons.prems d have "st' = st1" "r = Inl e" by auto
    with e1 show ?thesis
      by (intro exI [of _ ev1]) (auto simp: planned_calls_Cons [of out a as] prefix_def)
  next
    case (Inr u)
    with Cons.prems d have "download_arches env out as st1 = (r, st')" by simp
    from Cons.IH [OF this] obtain ev2 where
      e2: "trace st' = trace st1 @ ev2" "scan False ev2 \<noteq> None"
        "prefix (fetch_calls ev2) (planned_calls out as)"
        "\<forall>x. r = Inr x \<longrightarrow> scan False ev2 = Some False \<and> fetch_calls ev2 = planned_calls out as"
      by blast
    from e1(4) Inr have s1: "scan False ev1 = Some False" "fetch_calls ev1 = planned_calls out [a]"
      by auto
    show ?thesis
      using e2 by (intro exI [of _ "ev1 @ ev2"])
        (auto simp: e1(1) s1 scan_append fetch_calls_append planned_calls_Cons [of out a as])
  qed
qed

lemma scan_in_flight:
  "scan b es = Some b' \<Longrightarrow>
   list_all (\<lambda>p. in_flight p + (if b then 1 else 0) = 0 \<or> in_flight p + (if b then 1 else 0) = 1) (prefixes es)"
proof (induction b es rule: scan.induct)
  case (1 b) then show ?case by simp
next
  case (2 b d es) then show ?case by (auto simp: list_all_iff split: if_splits)
next
  case (3 b files n es) then show ?case by (auto simp: list_all_iff split: if_splits)
next
  case (4 b es) then show ?case by (auto simp: list_all_iff split: if_splits)
qed

lemma made_dirs_append: "made_dirs (xs @ ys) = made_dirs xs @ made_dirs ys"
  by (induction xs rule: made_dirs.induct) auto

lemma build_files_dirs:
  "build_files env dest pkgs files st = (Inr files', st') \<Longrightarrow>
   made_dirs (trace st') = made_dirs (trace st) @ map (\<lambda>pkg. os_path_dirname (dest pkg)) pkgs"
proof (induction pkgs arbitrary: files st)
  case Nil then show ?case by simp
next
  case (Cons pkg pkgs)
  obtain r1 st1 where m: "makedirs env (os_path_dirname (dest pkg)) st = (r1, st1)"
    by (cases "makedirs env (os_path_dirname (dest pkg)) st")
  note t1 = makedirs_trace [OF m]
  show ?case
  proof (cases r1)
    case (Inl e)
    with Cons.prems m show ?thesis by (simp add: Let_def)
  next
    case (Inr u)
    with Cons.prems m have
      "build_files env dest pkgs (dict_setitem files (url pkg) (dest pkg)) st1 = (Inr files', st')"
      by (simp add: Let_def)
    from Cons.IH [OF this] t1 show ?thesis by (simp add: made_dirs_append)
  qed
qed

lemma asyncio_run_dirs:
  "asyncio_run env files st = (r, st') \<Longrightarrow> made_dirs (trace st') = made_dirs (trace st)"
  by (auto simp: asyncio_run_def Let_def made_dirs_append split: prod.splits option.splits)

lemma download_arch_dirs:
  assumes "download_arch env out a st = (Inr u, st')"
  shows "made_dirs (trace st') = made_dirs (trace st) @ planned_dirs out [a]"
proof -
  from assms [unfolded download_arch_def] show ?thesis
  proof (cases rule: bind_cases)
    case (raised e) then show ?thesis by simp
  next
    case (returned files st1)
    note d1 = build_files_dirs [OF returned(1)]
    from returned(2) show ?thesis
    proof (cases rule: bind_cases)
      case (raised e) then show ?thesis by simp
    next
      case (returned u2 st2)
      note d2 = asyncio_run_dirs [OF returned(1)]
      from returned(2) show ?thesis
      proof (cases rule: bind_cases)
        case (raised e) then show ?thesis by simp
      next
        case (returned files2 st3)
        from build_files_dirs [OF returned(1)] asyncio_run_dirs [OF returned(2)] d1 d2
        show ?thesis by (simp add: planned_dirs_def)
      qed
    qed
  qed
qed

lemma download_arches_dirs:
  "download_arches env out as st = (Inr u, st') \<Longrightarrow>
   made_dirs (trace st') = made_dirs (trace st) @ planned_dirs out as"
proof (induction as arbitrary: st)
  case Nil then show ?case by (simp add: planned_dirs_def)
next
  case (Cons a as)
  obtain r1 st1 where d: "download_arch env out a st = (r1, st1)"
    by (cases "download_arch env out a st")
  show ?case
  proof (cases r1)
    case (Inl e) with Cons.prems d show ?thesis by simp
  next
    case (Inr u1)
    with Cons.prems d have "download_arches env out as st1 = (Inr u, st')" by simp
    from Cons.IH [OF this] download_arch_dirs [OF d [unfolded Inr]]
    show ?thesis by (simp add: planned_dirs_def)
  qed
qed

subsection \<open>Validation\<close>






















subsection \<open>Runs of the model\<close>

lemmas path_defs = package_dest_def source_dest_def os_path_join_def join_step_def
      startswith_sep_def endswith_sep_def os_path_basename_def os_path_dirname_def

lemma download_calls:
  assumes "download env lock out (fresh w) = (r, st')"
  shows "scan False (trace st') \<noteq> None" "prefix (fetch_calls (trace st')) (planned_calls out (arches lock))"
    "r = Inr () \<Longrightarrow> fetch_calls (trace st') = planned_calls out (arches lock)"
  using download_arches_trace [OF assms [unfolded download_def]] by (auto simp: fresh_def)


lemma vim_plan:
  "planned_calls ''/out'' (arches vim_lock) =
    [[(vim_url, ''/out/deps/rpm/x86_64/updates/vim-enhanced-9.1.158-1.fc38.x86_64.rpm'')],
     [(vim_src_url, ''/out/deps/rpm/sources/x86_64/updates-source/vim-9.1.158-1.fc38.src.rpm'')]]"
  by (simp add: planned_calls_def planned_files_def vim_lock_def vim_arch_def vim_pkg_def vim_src_def
      vim_url_def vim_src_url_def path_defs)

lemma vim_download:
  "download (disk_env doc body) vim_lock ''/out'' (fresh w) =
    (Inr (),
     \<lparr>fs = [(''/out/deps/rpm/sources/x86_64/updates-source/vim-9.1.158-1.fc38.src.rpm'', body),
             (''/out/deps/rpm/x86_64/updates/vim-enhanced-9.1.158-1.fc38.x86_64.rpm'', body)] @ w,
      trace = [MakeDirs ''/out/deps/rpm/x86_64/updates'',
               FetchCall [(vim_url, ''/out/deps/rpm/x86_64/updates/vim-enhanced-9.1.158-1.fc38.x86_64.rpm'')] 5,
               FetchReturn,
               MakeDirs ''/out/deps/rpm/sources/x86_64/updates-source'',
               FetchCall [(vim_src_url, ''/out/deps/rpm/sources/x86_64/updates-source/vim-9.1.158-1.fc38.src.rpm'')] 5,
               FetchReturn]\<rparr>)"
  by (simp add: download_def download_arch_def bind_def vim_lock_def vim_arch_def vim_pkg_def vim_src_def
      vim_url_def vim_src_url_def fresh_def disk_env_def disk_fetch_def makedirs_def asyncio_run_def
      Let_def path_defs)

lemmas doc_defs = parse_def RpmsLock_init_def field_def validate_Arches_def validate_Arch_def
  validate_Packages_def validate_Package_def exact_def yaml_of_Package_def

lemma parse_vim_doc: "parse exact vim_doc = Inr vim_lock"
  by (simp add: doc_defs vim_doc_def vim_lock_def vim_arch_def vim_pkg_def vim_src_def)

lemma deps_rpm_plain: "out \<noteq> [] \<Longrightarrow> \<not> endswith_sep out \<Longrightarrow> deps_rpm out = out @ ''/deps/rpm''"
  by (simp add: deps_rpm_def join_step_def startswith_sep_def endswith_sep_def)





lemma vim_fetch:
  "fetch_rpm_source (disk_env vim_doc body) (r\<lparr>output_dir := ''/out''\<rparr>) (fresh lock_disk) =
    (Inr \<lparr>components = []\<rparr>,
     \<lparr>fs = [(''/out/deps/rpm/sources/x86_64/updates-source/vim-9.1.158-1.fc38.src.rpm'', body),
             (''/out/deps/rpm/x86_64/updates/vim-enhanced-9.1.158-1.fc38.x86_64.rpm'', body),
             (''rpms.lock.yaml'', ''lockfileVersion: 1'')],
      trace = [MakeDirs ''/out/deps/rpm/x86_64/updates'',
               FetchCall [(vim_url, ''/out/deps/rpm/x86_64/updates/vim-enhanced-9.1.158-1.fc38.x86_64.rpm'')] 5,
               FetchReturn,
               MakeDirs ''/out/deps/rpm/sources/x86_64/updates-source'',
               FetchCall [(vim_src_url, ''/out/deps/rpm/sources/x86_64/updates-source/vim-9.1.158-1.fc38.src.rpm'')] 5,
               FetchReturn]\<rparr>)"
proof -
  have "from_file (disk_env vim_doc body) ''rpms.lock.yaml'' (fresh lock_disk) = (Inr vim_lock, fresh lock_disk)"
    by (simp add: from_file_def disk_env_def disk_open_def lock_disk_def fresh_def parse_vim_doc)
  then show ?thesis
    by (simp add: fetch_rpm_source_def bind_def vim_download lock_disk_def)
qed

lemma download_dirs:
  "download env lock out (fresh w) = (Inr u, st') \<Longrightarrow> made_dirs (trace st') = planned_dirs out (arches lock)"
  using download_arches_dirs [of env out "arches lock" "fresh w" u st']
  by (simp add: download_def fresh_def)




section \<open>The properties\<close>

subsection \<open>Destination paths\<close>

text \<open>Claim C6, as the code has it. The destination path keeps of a package entry its
  architecture, its repository id and the file name of its URL, and nothing else. For
  architectures and repository ids that are not empty and hold no separator: two binary
  packages (and likewise two source packages) get the same path exactly when they agree on
  architecture, repository id and the file name of the URL, and a binary package never
  gets the path of a source package. So the paths of \<open>packages\<close> and of \<open>sources\<close>
  are disjoint, and entries that differ in one of the three components never collide.\<close>

theorem dest_collision_iff:
  assumes "clean (arch a)" "clean (repoid p)" "clean (arch a')" "clean (repoid p')"
  shows "(package_dest out a p = package_dest out a' p' \<longleftrightarrow>
            arch a = arch a' \<and> repoid p = repoid p' \<and>
            os_path_basename (url p) = os_path_basename (url p')) \<and>
         (source_dest out a p = source_dest out a' p' \<longleftrightarrow>
            arch a = arch a' \<and> repoid p = repoid p' \<and>
            os_path_basename (url p) = os_path_basename (url p')) \<and>
         package_dest out a p \<noteq> source_dest out a' p'"
proof -
  have ca: "CHR ''/'' \<notin> set (arch a)" "CHR ''/'' \<notin> set (arch a')"
    and cr: "CHR ''/'' \<notin> set (repoid p)" "CHR ''/'' \<notin> set (repoid p')"
    using assms by (simp_all add: clean_def)
  have cs: "CHR ''/'' \<notin> set ''sources''" by simp
  have b: "CHR ''/'' \<notin> set (os_path_basename (url p))" by (rule basename_no_sep)
  have pp: "package_dest out a p = package_dest out a' p' \<longleftrightarrow>
            arch a = arch a' \<and> repoid p = repoid p' \<and>
            os_path_basename (url p) = os_path_basename (url p')"
    unfolding package_dest_eq [OF assms(1,2)] package_dest_eq [OF assms(3,4)]
    by (simp add: seg_cancel [OF ca] seg_cancel [OF cr])
  have ss: "source_dest out a p = source_dest out a' p' \<longleftrightarrow>
            arch a = arch a' \<and> repoid p = repoid p' \<and>
            os_path_basename (url p) = os_path_basename (url p')"
    unfolding source_dest_eq [OF assms(1,2)] source_dest_eq [OF assms(3,4)]
    by (simp add: seg_cancel [OF ca] seg_cancel [OF cr])
  have ps: "package_dest out a p \<noteq> source_dest out a' p'"
  proof
    assume "package_dest out a p = source_dest out a' p'"
    then have "arch a @ CHR ''/'' # repoid p @ CHR ''/'' # os_path_basename (url p)
      = ''sources'' @ CHR ''/'' # arch a' @ CHR ''/'' # repoid p' @ CHR ''/'' # os_path_basename (url p')"
      unfolding package_dest_eq [OF assms(1,2)] source_dest_eq [OF assms(3,4)] by simp
    then have "repoid p @ CHR ''/'' # os_path_basename (url p)
      = arch a' @ CHR ''/'' # repoid p' @ CHR ''/'' # os_path_basename (url p')"
      using seg_cancel [OF ca(1) cs] by blast
    then have "os_path_basename (url p) = repoid p' @ CHR ''/'' # os_path_basename (url p')"
      using seg_cancel [OF cr(1) ca(2)] by blast
    with b show False by (metis in_set_conv_decomp)
  qed
  from pp ss ps show ?thesis by blast
qed

theorem dest_collision_iff_witness:
  "clean (arch vim_arch) \<and> clean (repoid vim_pkg) \<and> clean (repoid vim_src) \<and>
   package_dest ''/out'' vim_arch vim_pkg \<noteq> source_dest ''/out'' vim_arch vim_src \<and>
   package_dest ''/out'' vim_arch vim_pkg \<noteq> package_dest ''/out'' vim_arch vim_src"
proof -
  have c: "clean (arch vim_arch)" "clean (repoid vim_pkg)" "clean (repoid vim_src)"
    by (simp_all add: clean_def vim_arch_def vim_pkg_def vim_src_def)
  have "repoid vim_pkg \<noteq> repoid vim_src" by (simp add: vim_pkg_def vim_src_def)
  with dest_collision_iff [OF c(1,2) c(1,3), of "''/out''"] c show ?thesis by simp
qed

text \<open>Claim C6 as stated fails: two distinct entries of one \<open>packages\<close> sequence whose
  URLs differ only before the file name get one path, and with a repository id that holds
  a separator a binary package gets the path of a source package of the same architecture
  group.\<close>

theorem dest_not_injective:
  "dup_a \<noteq> dup_b \<and> dup_a \<in> set (packages dup_arch) \<and> dup_b \<in> set (packages dup_arch) \<and>
   package_dest ''/out'' dup_arch dup_a = package_dest ''/out'' dup_arch dup_b \<and>
   mix_bin \<in> set (packages mix_arch) \<and> mix_src \<in> set (sources mix_arch) \<and>
   package_dest ''/out'' mix_arch mix_bin = source_dest ''/out'' mix_arch mix_src"
  by (simp add: dup_a_def dup_b_def dup_arch_def mix_bin_def mix_src_def mix_arch_def
      package_dest_def source_dest_def os_path_join_def join_step_def
      startswith_sep_def endswith_sep_def os_path_basename_def)

subsection \<open>One dictionary entry per URL\<close>



subsection \<open>The fetcher calls of a run\<close>

text \<open>Claim C7. In every run of \<open>download\<close>, whatever the collaborators do, the trace
  is sequential: a fetcher call is issued only when no call is in flight, so that after
  every prefix of the trace at most one call is in flight; and the calls come in the
  planned order, binary packages before source packages within an architecture, the
  architectures in the order of the lockfile (a prefix of it when a collaborator raised).\<close>

theorem download_sequential:
  "sequential (trace (snd (download env lock out (fresh w)))) \<and>
   list_all (\<lambda>p. in_flight p = 0 \<or> in_flight p = 1)
     (prefixes (trace (snd (download env lock out (fresh w))))) \<and>
   prefix (fetch_calls (trace (snd (download env lock out (fresh w)))))
     (planned_calls out (arches lock))"
proof -
  obtain r st' where d: "download env lock out (fresh w) = (r, st')"
    by (cases "download env lock out (fresh w)")
  note c = download_calls [OF d]
  from c(1) obtain b where b: "scan False (trace st') = Some b" by auto
  from scan_in_flight [OF b] c(1,2) show ?thesis by (simp add: d sequential_def)
qed

text \<open>Claim C8. The dictionaries handed to the fetcher and the directories created
  depend on the lockfile and the output directory only: two runs that complete, in any two
  environments and on any two file systems, issue the same fetcher calls and ask for the
  same directories, namely the planned ones.\<close>

theorem plan_deterministic:
  assumes "fst (download e1 lock out (fresh w1)) = Inr ()"
      and "fst (download e2 lock out (fresh w2)) = Inr ()"
  shows "fetch_calls (trace (snd (download e1 lock out (fresh w1))))
           = fetch_calls (trace (snd (download e2 lock out (fresh w2)))) \<and>
         made_dirs (trace (snd (download e1 lock out (fresh w1))))
           = made_dirs (trace (snd (download e2 lock out (fresh w2)))) \<and>
         fetch_calls (trace (snd (download e1 lock out (fresh w1)))) = planned_calls out (arches lock) \<and>
         made_dirs (trace (snd (download e1 lock out (fresh w1)))) = planned_dirs out (arches lock)"
proof -
  obtain s1 where d1: "download e1 lock out (fresh w1) = (Inr (), s1)"
    using assms(1) by (cases "download e1 lock out (fresh w1)") auto
  obtain s2 where d2: "download e2 lock out (fresh w2) = (Inr (), s2)"
    using assms(2) by (cases "download e2 lock out (fresh w2)") auto
  from download_calls(3) [OF d1] download_calls(3) [OF d2] download_dirs [OF d1] download_dirs [OF d2]
  show ?thesis by (simp add: d1 d2)
qed

theorem plan_deterministic_witness:
  "fst (download (disk_env vim_doc ''abc'') vim_lock ''/out'' (fresh [])) = Inr () \<and>
   fst (download (disk_env YNull ''xyz'') vim_lock ''/out'' (fresh [(''old'', ''data'')])) = Inr () \<and>
   fetch_calls (trace (snd (download (disk_env vim_doc ''abc'') vim_lock ''/out'' (fresh []))))
     = fetch_calls (trace (snd (download (disk_env YNull ''xyz'') vim_lock ''/out'' (fresh [(''old'', ''data'')]))))"
proof -
  have 1: "fst (download (disk_env vim_doc ''abc'') vim_lock ''/out'' (fresh [])) = Inr ()"
    by (simp add: vim_download)
  have 2: "fst (download (disk_env YNull ''xyz'') vim_lock ''/out'' (fresh [(''old'', ''data'')])) = Inr ()"
    by (simp add: vim_download)
  from plan_deterministic [OF 1 2] 1 2 show ?thesis by blast
qed


text \<open>Claim C3, as the code has it. For the lockfile of the scenario and an output
  directory that is not empty and does not end in a separator, a run that completes hands
  the fetcher two dictionaries in turn: the binary URL with the path
  \<^verbatim>\<open><output>/deps/rpm/x86_64/updates/vim-enhanced-9.1.158-1.fc38.x86_64.rpm\<close>, then the
  source URL with the path
  \<^verbatim>\<open><output>/deps/rpm/sources/x86_64/updates-source/vim-9.1.158-1.fc38.src.rpm\<close>.\<close>

theorem vim_fetch_plan:
  assumes "out \<noteq> []" and "\<not> endswith_sep out"
    and "fst (download env vim_lock out (fresh w)) = Inr ()"
  shows "fetch_calls (trace (snd (download env vim_lock out (fresh w)))) =
    [[(vim_url, out @ ''/deps/rpm/x86_64/updates/vim-enhanced-9.1.158-1.fc38.x86_64.rpm'')],
     [(vim_src_url, out @ ''/deps/rpm/sources/x86_64/updates-source/vim-9.1.158-1.fc38.src.rpm'')]]"
proof -
  obtain st' where d: "download env vim_lock out (fresh w) = (Inr (), st')"
    using assms(3) by (cases "download env vim_lock out (fresh w)") auto
  have c: "clean (arch vim_arch)" "clean (repoid vim_pkg)" "clean (repoid vim_src)"
    by (simp_all add: clean_def vim_arch_def vim_pkg_def vim_src_def)
  have b: "os_path_basename (url vim_pkg) = ''vim-enhanced-9.1.158-1.fc38.x86_64.rpm''"
    "os_path_basename (url vim_src) = ''vim-9.1.158-1.fc38.src.rpm''"
    by (simp_all add: os_path_basename_def vim_pkg_def vim_src_def vim_url_def vim_src_url_def)
  have p: "package_dest out vim_arch vim_pkg
      = out @ ''/deps/rpm/x86_64/updates/vim-enhanced-9.1.158-1.fc38.x86_64.rpm''"
    unfolding package_dest_eq [OF c(1,2)] deps_rpm_plain [OF assms(1,2)] b
    by (simp add: vim_arch_def vim_pkg_def)
  have s: "source_dest out vim_arch vim_src
      = out @ ''/deps/rpm/sources/x86_64/updates-source/vim-9.1.158-1.fc38.src.rpm''"
    unfolding source_dest_eq [OF c(1,3)] deps_rpm_plain [OF assms(1,2)] b
    by (simp add: vim_arch_def vim_src_def)
  have "planned_calls out (arches vim_lock) =
     [[(vim_url, package_dest out vim_arch vim_pkg)], [(vim_src_url, source_dest out vim_arch vim_src)]]"
    by (simp add: planned_calls_def planned_files_def vim_lock_def vim_arch_def vim_pkg_def vim_src_def)
  with download_calls(3) [OF d] show ?thesis by (simp add: d p s)
qed

theorem vim_fetch_plan_witness:
  "''/out'' \<noteq> [] \<and> \<not> endswith_sep ''/out'' \<and>
   fst (download (disk_env vim_doc ''abc'') vim_lock ''/out'' (fresh [])) = Inr () \<and>
   fetch_calls (trace (snd (download (disk_env vim_doc ''abc'') vim_lock ''/out'' (fresh [])))) =
    [[(vim_url, ''/out/deps/rpm/x86_64/updates/vim-enhanced-9.1.158-1.fc38.x86_64.rpm'')],
     [(vim_src_url, ''/out/deps/rpm/sources/x86_64/updates-source/vim-9.1.158-1.fc38.src.rpm'')]]"
proof -
  have 1: "''/out'' \<noteq> []" by simp
  have 2: "\<not> endswith_sep ''/out''" by (simp add: endswith_sep_def)
  have 3: "fst (download (disk_env vim_doc ''abc'') vim_lock ''/out'' (fresh [])) = Inr ()"
    by (simp add: vim_download)
  from vim_fetch_plan [OF 1 2 3] 1 2 3 show ?thesis by simp
qed

text \<open>Claim C3 as stated fails: with the output directory \<^verbatim>\<open>/out\<close> the binary URL is
  not mapped to \<^verbatim>\<open>/out/x86_64/updates/...\<close>, and the source URL is mapped neither to
  \<^verbatim>\<open>/out/x86_64/updates-source/...\<close> nor, reading the claim's output as the package
  directory \<^verbatim>\<open>/out/deps/rpm\<close>, to \<^verbatim>\<open>/out/deps/rpm/x86_64/updates-source/...\<close>.\<close>

theorem vim_fetch_plan_not_flat:
  "map_of (concat (fetch_calls (trace (snd (download (disk_env vim_doc ''abc'') vim_lock ''/out'' (fresh []))))))
      vim_url \<noteq> Some ''/out/x86_64/updates/vim-enhanced-9.1.158-1.fc38.x86_64.rpm'' \<and>
   map_of (concat (fetch_calls (trace (snd (download (disk_env vim_doc ''abc'') vim_lock ''/out'' (fresh []))))))
      vim_src_url \<noteq> Some ''/out/x86_64/updates-source/vim-9.1.158-1.fc38.src.rpm'' \<and>
   map_of (concat (fetch_calls (trace (snd (download (disk_env vim_doc ''abc'') vim_lock ''/out'' (fresh []))))))
      vim_src_url \<noteq> Some ''/out/deps/rpm/x86_64/updates-source/vim-9.1.158-1.fc38.src.rpm''"
  by (simp add: vim_download)

subsection \<open>Parsing\<close>




subsection \<open>The entry point\<close>



text \<open>Claim C1, evaluated. The lockfile declares 1976132 bytes for the binary package and
  the remote side serves three bytes: the run returns normally, with the three bytes at the
  destination path. No size or checksum is compared anywhere in \<open>fetch_rpm_source\<close>.\<close>

theorem fetch_keeps_file_of_wrong_size:
  "fst (fetch_rpm_source (disk_env vim_doc ''abc'') \<lparr>output_dir = ''/out''\<rparr> (fresh lock_disk))
     = Inr \<lparr>components = []\<rparr> \<and>
   map_of (fs (snd (fetch_rpm_source (disk_env vim_doc ''abc'') \<lparr>output_dir = ''/out''\<rparr> (fresh lock_disk))))
      ''/out/deps/rpm/x86_64/updates/vim-enhanced-9.1.158-1.fc38.x86_64.rpm'' = Some ''abc'' \<and>
   int (length ''abc'') \<noteq> size_pkg vim_pkg"
  using vim_fetch [of "''abc''" "\<lparr>output_dir = ''/out''\<rparr>"] by (simp add: vim_pkg_def)

text \<open>Claim C2, evaluated. The lockfile has one binary package, both artifacts are fetched,
  and the run returns an empty component list: \<^verbatim>\<open>components\<close> is never appended to.\<close>

theorem fetch_returns_no_components:
  "packages vim_arch = [vim_pkg] \<and>
   fetch_calls (trace (snd (fetch_rpm_source (disk_env vim_doc ''vim'') \<lparr>output_dir = ''/out''\<rparr> (fresh lock_disk))))
     = [[(vim_url, ''/out/deps/rpm/x86_64/updates/vim-enhanced-9.1.158-1.fc38.x86_64.rpm'')],
        [(vim_src_url, ''/out/deps/rpm/sources/x86_64/updates-source/vim-9.1.158-1.fc38.src.rpm'')]] \<and>
   fst (fetch_rpm_source (disk_env vim_doc ''vim'') \<lparr>output_dir = ''/out''\<rparr> (fresh lock_disk))
     = Inr \<lparr>components = []\<rparr>"
  using vim_fetch [of "''vim''" "\<lparr>output_dir = ''/out''\<rparr>"] by (simp add: vim_arch_def)

text \<open>Claim C4, evaluated. In a working directory without \<^verbatim>\<open>rpms.lock.yaml\<close> the run ends
  with the \<^verbatim>\<open>FileNotFoundError\<close> of \<^verbatim>\<open>open\<close> for that path, which is not caught or
  translated; no directory was created, no fetcher call issued, and the file system is as
  it was.\<close>

theorem fetch_without_lockfile:
  "fetch_rpm_source (disk_env vim_doc ''abc'') \<lparr>output_dir = ''/out''\<rparr> (fresh [])
     = (Inl (FileNotFoundError ''rpms.lock.yaml''), fresh [])"
  by (simp add: fetch_rpm_source_def bind_def from_file_def disk_env_def disk_open_def fresh_def)

end
